theory Spec2Isabelle
  imports Complex_Main "HOL-Library.Sublist"
begin

section \<open>Python values and string operations\<close>

text \<open>
  The tools of \<^verbatim>\<open>tools.py\<close> take and return Python values. The values that reach a
  return statement of \<^verbatim>\<open>execute_code\<close> are \<^verbatim>\<open>None\<close>, the float literal \<^verbatim>\<open>0.0\<close>,
  strings, lists, dictionaries and whatever \<^verbatim>\<open>response.json()\<close> parses. A Python
  \<^verbatim>\<open>str\<close> is modelled as a \<^typ>\<open>string\<close> whose characters are code points below 256;
  a float is modelled by the real number it denotes (no rounding is modelled).
\<close>

datatype pyval =
    PNone
  | PBool bool
  | PInt int
  | PFloat real
  | PStr string
  | PList "pyval list"
  | PDict "(string \<times> pyval) list"

text \<open>
  \<^verbatim>\<open>sub in s\<close> on strings is the contiguous-sublist test \<^const>\<open>sublist\<close>.
  \<^verbatim>\<open>s.partition(sep)\<close> cuts \<^verbatim>\<open>s\<close> at the leftmost occurrence of \<^verbatim>\<open>sep\<close>;
  \<open>None\<close> stands for "no occurrence".
\<close>

fun partition_str :: "string \<Rightarrow> string \<Rightarrow> (string \<times> string) option" where
  "partition_str sep [] = (if sep = [] then Some ([], []) else None)"
| "partition_str sep (c # cs) =
     (if prefix sep (c # cs) then Some ([], drop (length sep) (c # cs))
      else (case partition_str sep cs of
              None \<Rightarrow> None
            | Some (a, b) \<Rightarrow> Some (c # a, b)))"

lemma partition_str_shorter:
  "partition_str (d # ds) s = Some (a, b) \<Longrightarrow> length b < length s"
proof (induction s arbitrary: a)
  case Nil
  then show ?case by simp
next
  case (Cons c cs)
  show ?case
  proof (cases "prefix (d # ds) (c # cs)")
    case True
    with Cons.prems show ?thesis by auto
  next
    case False
    with Cons.prems obtain a' where "partition_str (d # ds) cs = Some (a', b)"
      by (auto split: option.splits)
    from Cons.IH [OF this] show ?thesis by simp
  qed
qed

text \<open>
  \<^verbatim>\<open>s.split(sep)\<close>: the pieces between the occurrences of \<^verbatim>\<open>sep\<close>, found from left
  to right without overlap. Python raises \<^verbatim>\<open>ValueError\<close> on an empty separator; the
  source passes literals only, and the model has no equation for the empty separator.
\<close>

function (sequential) py_split :: "string \<Rightarrow> string \<Rightarrow> string list" where
  "py_split (d # ds) s =
     (case partition_str (d # ds) s of
        None \<Rightarrow> [s]
      | Some (a, b) \<Rightarrow> a # py_split (d # ds) b)"
| "py_split [] s = undefined"
  by pat_completeness auto
termination
  by (relation "measure (\<lambda>(sep, s). length s)") (auto dest: partition_str_shorter)

declare py_split.simps [simp del]

text \<open>
  \<^verbatim>\<open>s.replace(old, new)\<close>: every occurrence of \<^verbatim>\<open>old\<close>, from left to right without
  overlap, becomes \<^verbatim>\<open>new\<close>; an empty \<^verbatim>\<open>old\<close> matches before every character and at
  the end.
\<close>

function py_replace :: "string \<Rightarrow> string \<Rightarrow> string \<Rightarrow> string" where
  "py_replace old new [] = (if old = [] then new else [])"
| "py_replace old new (c # cs) =
     (if old = [] then new @ c # py_replace old new cs
      else if prefix old (c # cs) then new @ py_replace old new (drop (length old) (c # cs))
      else c # py_replace old new cs)"
  by pat_completeness auto
termination
  by (relation "measure (\<lambda>(old, new, s). length s)") (auto simp: neq_Nil_conv)

text \<open>
  \<^verbatim>\<open>str.isspace\<close> and \<^verbatim>\<open>str.isalpha\<close> on the code points below 256, and the
  methods \<^verbatim>\<open>strip()\<close> and \<^verbatim>\<open>isalpha()\<close> built on them.
\<close>

definition char_isspace :: "char \<Rightarrow> bool" where
  "char_isspace c =
     (let n = (of_char c :: nat)
      in (9 \<le> n \<and> n \<le> 13) \<or> (28 \<le> n \<and> n \<le> 32) \<or> n = 133 \<or> n = 160)"

definition char_isalpha :: "char \<Rightarrow> bool" where
  "char_isalpha c =
     (let n = (of_char c :: nat)
      in (65 \<le> n \<and> n \<le> 90) \<or> (97 \<le> n \<and> n \<le> 122) \<or> n = 170 \<or> n = 181 \<or> n = 186
         \<or> (192 \<le> n \<and> n \<le> 214) \<or> (216 \<le> n \<and> n \<le> 246) \<or> (248 \<le> n \<and> n \<le> 255))"

definition py_strip :: "string \<Rightarrow> string" where
  "py_strip s = rev (dropWhile char_isspace (rev (dropWhile char_isspace s)))"

definition py_isalpha :: "string \<Rightarrow> bool" where
  "py_isalpha s = (s \<noteq> [] \<and> list_all char_isalpha s)"

text \<open>\<^verbatim>\<open>str(n)\<close> for an integer: decimal digits, with a minus sign when negative.\<close>

definition digit_char :: "nat \<Rightarrow> char" where
  "digit_char n = char_of (48 + n)"

function str_nat :: "nat \<Rightarrow> string" where
  "str_nat n = (if n < 10 then [digit_char n] else str_nat (n div 10) @ [digit_char (n mod 10)])"
  by pat_completeness auto
termination
  by (relation "measure (\<lambda>n. n)") auto

declare str_nat.simps [simp del]

definition str_int :: "int \<Rightarrow> string" where
  "str_int i = (if i < 0 then CHR ''-'' # str_nat (nat (- i)) else str_nat (nat i))"


section \<open>The arithmetic tool\<close>

text \<open>
  The exceptions that the arithmetic and the formatting of \<^verbatim>\<open>do_math\<close> can raise; the
  function has no \<^verbatim>\<open>try\<close>, so they leave it.

  \<^verbatim>\<open>a / b\<close> is Python's true division of integers: the quotient rounded to the nearest
  double, \<^verbatim>\<open>ZeroDivisionError\<close> for a zero divisor and \<^verbatim>\<open>OverflowError\<close> when the
  rounded quotient is beyond the largest double, that is from \<open>2^1024 - 2^970\<close> on in
  absolute value. The float is modelled by the exact quotient; its rounding is not.

  The text of an integer in an f-string is \<^verbatim>\<open>str(n)\<close>, which raises \<^verbatim>\<open>ValueError\<close> when
  the integer has more decimal digits than \<^verbatim>\<open>sys.get_int_max_str_digits()\<close>, the
  parameter \<open>int_max_str_digits\<close> (4300 by default where the limit exists; 0 for no
  limit). The text of a float is produced by \<open>repr_float\<close>, a parameter of the model.
\<close>

datatype py_error = ZeroDivisionError | OverflowError | ValueError

definition true_divide :: "int \<Rightarrow> int \<Rightarrow> py_error + real" where
  "true_divide a b =
     (if b = 0 then Inl ZeroDivisionError
      else if 2 ^ 1024 - 2 ^ 970 \<le> \<bar>real_of_int a / real_of_int b\<bar> then Inl OverflowError
      else Inr (real_of_int a / real_of_int b))"

definition format_int :: "nat \<Rightarrow> int \<Rightarrow> py_error + string" where
  "format_int int_max_str_digits i =
     (if 0 < int_max_str_digits \<and> int_max_str_digits < length (str_nat (nat \<bar>i\<bar>))
      then Inl ValueError
      else Inr (str_int i))"

text \<open>
  \<^verbatim>\<open>return f"The result is {result}"\<close>, for the numbers that \<^verbatim>\<open>result\<close> can hold.
\<close>

definition format_result :: "nat \<Rightarrow> (real \<Rightarrow> string) \<Rightarrow> pyval \<Rightarrow> py_error + string" where
  "format_result int_max_str_digits repr_float v =
     (case v of
        PInt i \<Rightarrow>
          (case format_int int_max_str_digits i of
             Inl e \<Rightarrow> Inl e
           | Inr s \<Rightarrow> Inr (''The result is '' @ s))
      | PFloat x \<Rightarrow> Inr (''The result is '' @ repr_float x)
      | _ \<Rightarrow> Inr ''The result is '')"

text \<open>
  \<^verbatim>\<open>do_math(a, b, operation)\<close>. The first \<^verbatim>\<open>if\<close> stands alone: the chain that
  decides the return starts at the test for \<^verbatim>\<open>"subtract"\<close>. The local variable
  \<^verbatim>\<open>result\<close> is unbound (\<open>None\<close>) until a branch assigns it. \<open>Inl\<close> is an exception
  that leaves the function, \<open>Inr\<close> the string returned.
\<close>

definition do_math ::
  "nat \<Rightarrow> (real \<Rightarrow> string) \<Rightarrow> int \<Rightarrow> int \<Rightarrow> string \<Rightarrow> py_error + string"
where
  "do_math int_max_str_digits repr_float a b operation =
     (let result = (if operation = ''sum'' then Some (PInt (a + b)) else None)
      in if operation = ''subtract'' then
           format_result int_max_str_digits repr_float (PInt (a - b))
         else if operation = ''multiply'' then
           format_result int_max_str_digits repr_float (PInt (a * b))
         else if operation = ''divide'' then
           (if b = 0 then Inr ''Error: Division by zero''
            else (case true_divide a b of
                    Inl e \<Rightarrow> Inl e
                  | Inr x \<Rightarrow> format_result int_max_str_digits repr_float (PFloat x)))
         else Inr ''Error: Unknown operation'')"

text \<open>The \<^verbatim>\<open>enum\<close> of the \<^verbatim>\<open>operation\<close> parameter in the schema of \<^verbatim>\<open>TOOLS_SPEC\<close>.\<close>

definition do_math_operation_enum :: "string list" where
  "do_math_operation_enum = [''sum'', ''multiply'', ''divide'', ''subtract'']"


section \<open>Extraction of the code block\<close>

text \<open>
  The first statements of \<^verbatim>\<open>execute_code\<close> isolate the code in the completion.
  \<open>xs[-1]\<close> is \<^const>\<open>last\<close> and \<open>xs[0]\<close> is \<^const>\<open>hd\<close>: \<^const>\<open>py_split\<close> never gives
  an empty list. \<^verbatim>\<open>code.split("\n", 1)\<close> is \<^const>\<open>partition_str\<close>; it is called only
  when a newline occurs in \<^verbatim>\<open>code\<close>. \<open>None\<close> is the branch that returns at once for a
  completion without a fence.
\<close>

definition tagged_fence :: string where
  "tagged_fence = ''```python''"

definition fence :: string where
  "fence = ''```''"

definition extract_code :: "string \<Rightarrow> string option" where
  "extract_code completion =
     (if sublist tagged_fence completion then
        Some (hd (py_split fence (last (py_split tagged_fence completion))))
      else if sublist fence completion then
        (let parts = py_split fence completion
         in if length parts \<ge> 2 then
              (let code = parts ! 1
               in if sublist ''\<newline>'' code then
                    (case partition_str ''\<newline>'' code of
                       Some (first_line, rest) \<Rightarrow>
                         if py_isalpha (py_strip first_line) then Some rest else Some code
                     | None \<Rightarrow> Some code)
                  else Some code)
            else Some completion)
      else None)"


section \<open>The remote endpoint\<close>

text \<open>
  The exceptions that \<^verbatim>\<open>requests.post\<close>, \<^verbatim>\<open>raise_for_status\<close> and
  \<^verbatim>\<open>response.json()\<close> can raise, by the \<^verbatim>\<open>except\<close> clause that catches them, each
  with its text \<^verbatim>\<open>str(e)\<close>. Only subclasses of \<^verbatim>\<open>Exception\<close> are modelled.
\<close>

datatype exn =
    RequestException string
  | JSONDecodeError string
  | OtherException string

record response =
  status_code :: int
  reason :: string
  url :: string
  json :: "exn + pyval"

text \<open>
  \<^verbatim>\<open>Response.raise_for_status\<close> of the \<^verbatim>\<open>requests\<close> library raises \<^verbatim>\<open>HTTPError\<close>,
  a \<^verbatim>\<open>RequestException\<close>, for a status from 400 to 599 and does nothing otherwise.
\<close>

definition raise_for_status :: "response \<Rightarrow> exn option" where
  "raise_for_status r =
     (if 400 \<le> status_code r \<and> status_code r < 500 then
        Some (RequestException
          (str_int (status_code r) @ '' Client Error: '' @ reason r @ '' for url: '' @ url r))
      else if 500 \<le> status_code r \<and> status_code r < 600 then
        Some (RequestException
          (str_int (status_code r) @ '' Server Error: '' @ reason r @ '' for url: '' @ url r))
      else None)"

text \<open>
  A call of \<^verbatim>\<open>requests.post\<close> with its keyword arguments; \<open>post_data\<close> is the
  dictionary handed to \<^verbatim>\<open>json.dumps\<close>. The environment is the outcome of the call
  made in each iteration of the retry loop: an exception raised or a response. The
  trace of a run lists its outbound calls and its calls of \<^verbatim>\<open>time.sleep\<close>, in order.
  Calls of the logger change neither the returned pair nor the trace and are left out.
\<close>

record request =
  post_url :: string
  post_headers :: "(string \<times> string) list"
  post_data :: pyval
  post_timeout :: int

type_synonym network = "nat \<Rightarrow> exn + response"

datatype event = Post nat request | Sleep nat


section \<open>Constants of \<^verbatim>\<open>utils.py\<close>\<close>

definition MAX_RETRIES :: nat where
  "MAX_RETRIES = 3"

definition INITIAL_RETRY_DELAY :: nat where
  "INITIAL_RETRY_DELAY = 1"

definition API_TIMEOUT :: int where
  "API_TIMEOUT = 10"

definition SUPPORTED_LANGUAGES :: "string list" where
  "SUPPORTED_LANGUAGES =
     [''python'', ''cpp'', ''nodejs'', ''go'', ''go_test'', ''java'', ''php'', ''csharp'',
      ''bash'', ''typescript'', ''sql'', ''rust'', ''cuda'', ''lua'', ''R'', ''perl'', ''D_ut'',
      ''ruby'', ''scala'', ''julia'', ''pytest'', ''junit'', ''kotlin_script'', ''jest'',
      ''verilog'', ''python_gpu'', ''lean'', ''swift'', ''racket'']"


section \<open>The code submission pipeline\<close>

text \<open>The three \<^verbatim>\<open>except\<close> clauses: each records \<^verbatim>\<open>last_error\<close> and breaks.\<close>

definition handle_exn :: "string \<Rightarrow> exn \<Rightarrow> string" where
  "handle_exn log_prefix e =
     (case e of
        RequestException m \<Rightarrow> log_prefix @ ''API Request Error: '' @ m
      | JSONDecodeError m \<Rightarrow> log_prefix @ ''API Response JSON Decode Error: '' @ m
      | OtherException m \<Rightarrow> log_prefix @ ''Unexpected Error: '' @ m)"

text \<open>
  The loop \<^verbatim>\<open>for attempt in range(MAX_RETRIES)\<close>, by recursion on the attempts that
  remain. It ends by the \<^verbatim>\<open>return\<close> of the success path (\<open>Returned\<close>) or by leaving
  the loop, after a \<^verbatim>\<open>break\<close> or the last iteration, with \<^verbatim>\<open>last_error\<close> (\<open>Fell\<close>).
\<close>

datatype loop_result = Returned pyval | Fell "string option"

fun retry_loop ::
  "network \<Rightarrow> string \<Rightarrow> request \<Rightarrow> nat list \<Rightarrow> string option \<Rightarrow> loop_result \<times> event list"
where
  "retry_loop net log_prefix req [] last_error = (Fell last_error, [])"
| "retry_loop net log_prefix req (attempt # remaining) last_error =
     (case net attempt of
        Inl e \<Rightarrow> (Fell (Some (handle_exn log_prefix e)), [Post attempt req])
      | Inr resp \<Rightarrow>
          if status_code resp = 504 then
            (case retry_loop net log_prefix req remaining
                    (Some (log_prefix @ ''API Request Error: Gateway Timeout (504) on attempt ''
                           @ str_nat (attempt + 1) @ ''/'' @ str_nat MAX_RETRIES)) of
               (res, tr) \<Rightarrow>
                 (res,
                  Post attempt req
                  # (if attempt < MAX_RETRIES - 1
                     then [Sleep (INITIAL_RETRY_DELAY * (attempt + 1))] else [])
                  @ tr))
          else
            (case raise_for_status resp of
               Some e \<Rightarrow> (Fell (Some (handle_exn log_prefix e)), [Post attempt req])
             | None \<Rightarrow>
                 (case json resp of
                    Inl e \<Rightarrow> (Fell (Some (handle_exn log_prefix e)), [Post attempt req])
                  | Inr v \<Rightarrow> (Returned v, [Post attempt req]))))"

definition build_request ::
  "string \<Rightarrow> string option \<Rightarrow> int \<Rightarrow> int \<Rightarrow> int \<Rightarrow> string \<Rightarrow> request"
where
  "build_request code stdin compile_timeout run_timeout memory_limit_mb lang =
     \<lparr> post_url = ''http://localhost:8080/run_code'',
       post_headers = [(''Content-Type'', ''application/json''), (''Accept'', ''application/json'')],
       post_data = PDict
         [(''compile_timeout'', PInt compile_timeout),
          (''run_timeout'', PInt run_timeout),
          (''code'', PStr code),
          (''stdin'', (case stdin of None \<Rightarrow> PNone | Some s \<Rightarrow> PStr s)),
          (''memory_limit_MB'', PInt memory_limit_mb),
          (''language'', PStr lang),
          (''files'', PDict []),
          (''fetch_files'', PList [])],
       post_timeout = compile_timeout + run_timeout + API_TIMEOUT \<rparr>"

text \<open>The \<^verbatim>\<open>return\<close> after the loop; an empty or missing \<^verbatim>\<open>last_error\<close> is falsy.\<close>

definition failure_message :: "string \<Rightarrow> string option \<Rightarrow> string" where
  "failure_message log_prefix last_error =
     (case last_error of
        None \<Rightarrow> ''API Call Failed after retries''
      | Some e \<Rightarrow>
          if e = [] then ''API Call Failed after retries''
          else py_replace log_prefix ''API Call Failed: '' e)"

text \<open>\<^verbatim>\<open>log_prefix = f"[Request ID: {request_id}] "\<close>.\<close>

definition mk_log_prefix :: "string \<Rightarrow> string" where
  "mk_log_prefix request_id = ''[Request ID: '' @ request_id @ ''] ''"

text \<open>
  \<^verbatim>\<open>execute_code\<close>. The identifier drawn by \<^verbatim>\<open>uuid.uuid4()\<close> is the parameter
  \<open>request_id\<close>. The value is the returned pair together with the trace of the run.
\<close>

definition execute_code ::
  "network \<Rightarrow> string \<Rightarrow> string \<Rightarrow> string option \<Rightarrow> int \<Rightarrow> int \<Rightarrow> int \<Rightarrow> string
   \<Rightarrow> (pyval \<times> pyval) \<times> event list"
where
  "execute_code net request_id completion stdin compile_timeout run_timeout memory_limit_mb lang =
     (case extract_code completion of
        None \<Rightarrow>
          ((PFloat 0, PList [PDict [(''error'', PStr ''Invalid completion (missing code block)'')]]),
           [])
      | Some code \<Rightarrow>
          (let log_prefix = mk_log_prefix request_id
           in if lang \<notin> set SUPPORTED_LANGUAGES then
                ((PNone, PStr (log_prefix @ ''Unsupported language: '' @ lang)), [])
              else
                (case retry_loop net log_prefix
                        (build_request code stdin compile_timeout run_timeout memory_limit_mb lang)
                        [0..<MAX_RETRIES] None of
                   (Returned v, tr) \<Rightarrow> ((v, PNone), tr)
                 | (Fell last_error, tr) \<Rightarrow>
                     ((PNone, PStr (failure_message log_prefix last_error)), tr))))"


section \<open>Observing a run\<close>

text \<open>
  The attempt indices of the outbound calls of a trace, in order, and some environments
  and responses for concrete runs.
\<close>

fun post_attempts :: "event list \<Rightarrow> nat list" where
  "post_attempts [] = []"
| "post_attempts (Post attempt req # es) = attempt # post_attempts es"
| "post_attempts (Sleep delay # es) = post_attempts es"

definition sample_response :: "int \<Rightarrow> exn + pyval \<Rightarrow> response" where
  "sample_response status body =
     \<lparr> status_code = status, reason = ''status'', url = ''http://localhost:8080/run_code'',
       json = body \<rparr>"

definition always :: "exn + response \<Rightarrow> network" where
  "always outcome = (\<lambda>attempt. outcome)"

definition net_504_504_200 :: network where
  "net_504_504_200 =
     (\<lambda>attempt. if attempt < 2 then Inr (sample_response 504 (Inl (JSONDecodeError [])))
                else Inr (sample_response 200 (Inr (PDict [(''stdout'', PStr ''1'')]))))"


definition fenced_print :: string where
  "fenced_print = ''```python\<newline>print(1)\<newline>```''"


definition two_blocks :: string where
  "two_blocks = ''```python\<newline>A\<newline>```x```python\<newline>B\<newline>```''"

definition unclosed_block :: string where
  "unclosed_block = ''```python\<newline>print(1)''"




section \<open>Properties of the string operations\<close>

lemma tagged_fence_has_fence: "sublist tagged_fence s \<Longrightarrow> sublist fence s"
proof -
  assume a: "sublist tagged_fence s"
  then obtain ps ss where "s = ps @ tagged_fence @ ss" by (auto simp: sublist_def)
  then have "s = ps @ fence @ (''python'' @ ss)" by (simp add: fence_def tagged_fence_def)
  then show ?thesis by (simp only: sublist_appendI)
qed

lemma partition_str_None: "partition_str sep s = None \<longleftrightarrow> \<not> sublist sep s"
  by (induction s) (auto simp: sublist_Cons_right split: option.splits)

lemma partition_str_Some:
  assumes "partition_str sep s = Some (a, b)" and "sep \<noteq> []"
  shows "s = a @ sep @ b \<and> \<not> sublist sep (a @ butlast sep)"
  using assms
proof (induction s arbitrary: a)
  case Nil
  then show ?case by simp
next
  case (Cons c cs)
  show ?case
  proof (cases "prefix sep (c # cs)")
    case True
    with Cons.prems have a: "a = []" and b: "b = drop (length sep) (c # cs)" by auto
    from True have "c # cs = sep @ b" unfolding b by (auto simp: prefix_def)
    moreover have "\<not> sublist sep (butlast sep)"
    proof
      assume "sublist sep (butlast sep)"
      then have "length sep \<le> length (butlast sep)" by (rule sublist_length_le)
      moreover from Cons.prems(2) have "0 < length sep" by simp
      ultimately show False unfolding length_butlast by arith
    qed
    ultimately show ?thesis using a by simp
  next
    case False
    with Cons.prems obtain a' where p: "partition_str sep cs = Some (a', b)" and a: "a = c # a'"
      by (auto split: option.splits)
    from Cons.IH [OF p Cons.prems(2)] have cs: "cs = a' @ sep @ b"
      and first: "\<not> sublist sep (a' @ butlast sep)" by auto
    have "\<not> prefix sep (c # a' @ butlast sep)"
    proof
      assume "prefix sep (c # a' @ butlast sep)"
      moreover have "prefix (c # a' @ butlast sep) (c # cs)"
        unfolding cs using Cons.prems(2)
        by (simp add: prefix_def) (metis append_butlast_last_id append_assoc)
      ultimately have "prefix sep (c # cs)" by (rule prefix_order.trans)
      with False show False by simp
    qed
    with first have "\<not> sublist sep (c # a' @ butlast sep)" by (simp add: sublist_Cons_right)
    with cs a show ?thesis by simp
  qed
qed

lemma earlier_occurrence:
  assumes eq: "us @ sep @ b = sep @ r" and "us \<noteq> []"
  shows "sublist sep (p @ us @ butlast sep)"
proof -
  have 1: "prefix sep (us @ sep @ b)" unfolding eq by simp
  have "sep \<noteq> [] \<Longrightarrow> prefix (us @ butlast sep) (us @ sep @ b)"
    by (simp add: prefix_def) (metis append_butlast_last_id append_assoc)
  moreover have "sep = [] \<Longrightarrow> prefix (us @ butlast sep) (us @ sep @ b)" by simp
  ultimately have 2: "prefix (us @ butlast sep) (us @ sep @ b)" by blast
  have 3: "length sep \<le> length (us @ butlast sep)"
    using assms(2) by (cases us) auto
  from 1 2 3 have "prefix sep (us @ butlast sep)" by (rule prefix_length_prefix)
  then have "sublist sep (us @ butlast sep)" by (rule prefix_imp_sublist)
  then show ?thesis by (auto simp: sublist_def) (metis append_assoc)
qed

lemma partition_str_first:
  assumes s: "s = a @ sep @ b" and first: "\<not> sublist sep (a @ butlast sep)" and ne: "sep \<noteq> []"
  shows "partition_str sep s = Some (a, b)"
proof -
  have "sublist sep s" unfolding s by simp
  then obtain a' b' where p: "partition_str sep s = Some (a', b')"
    using partition_str_None [of sep s] by (cases "partition_str sep s") auto
  from partition_str_Some [OF p ne] have s': "s = a' @ sep @ b'"
    and first': "\<not> sublist sep (a' @ butlast sep)" by auto
  from s s' have "a @ sep @ b = a' @ sep @ b'" by simp
  then obtain us where "(a = a' @ us \<and> us @ sep @ b = sep @ b') \<or> (a @ us = a' \<and> sep @ b = us @ sep @ b')"
    using append_eq_append_conv2 [of a "sep @ b" a' "sep @ b'"] by blast
  then show ?thesis
  proof
    assume h: "a = a' @ us \<and> us @ sep @ b = sep @ b'"
    have "us = []"
    proof (rule ccontr)
      assume "us \<noteq> []"
      with h have "sublist sep (a' @ us @ butlast sep)" by (intro earlier_occurrence) auto
      with first h show False by simp
    qed
    with h p show ?thesis by simp
  next
    assume h: "a @ us = a' \<and> sep @ b = us @ sep @ b'"
    have "us = []"
    proof (rule ccontr)
      assume "us \<noteq> []"
      with h have "sublist sep (a @ us @ butlast sep)" by (intro earlier_occurrence [where b = b' and r = b]) auto
      with first' h show False by auto
    qed
    with h p show ?thesis by simp
  qed
qed

lemma py_split_no_sep: "sep \<noteq> [] \<Longrightarrow> \<not> sublist sep s \<Longrightarrow> py_split sep s = [s]"
  by (cases sep) (simp_all add: py_split.simps partition_str_None [THEN iffD2])

lemma py_split_Some:
  "partition_str sep s = Some (a, b) \<Longrightarrow> sep \<noteq> [] \<Longrightarrow> py_split sep s = a # py_split sep b"
  by (cases sep) (simp_all add: py_split.simps)

lemma py_split_not_Nil: "sep \<noteq> [] \<Longrightarrow> py_split sep s \<noteq> []"
  by (cases sep; cases "partition_str sep s") (auto simp: py_split.simps)

lemma py_split_last:
  assumes ne: "sep \<noteq> []"
    and unb: "\<And>vs. vs \<noteq> [] \<Longrightarrow> vs \<noteq> sep \<Longrightarrow> prefix vs sep \<Longrightarrow> \<not> suffix vs sep"
    and absent: "\<not> sublist sep rest"
  shows "last (py_split sep (pre @ sep @ rest)) = rest"
proof (induction "length pre" arbitrary: pre rule: less_induct)
  case less
  let ?s = "pre @ sep @ rest"
  have base: "last (py_split sep ([] @ sep @ rest)) = rest" if "pre \<noteq> []"
    using less [of "[]"] that by simp
  have "sublist sep ?s" by simp
  then obtain a b where p: "partition_str sep ?s = Some (a, b)"
    using partition_str_None [of sep ?s] by (cases "partition_str sep ?s") auto
  from partition_str_Some [OF p ne] have s: "?s = a @ sep @ b"
    and first: "\<not> sublist sep (a @ butlast sep)" by auto
  have split: "last (py_split sep ?s) = last (py_split sep b)"
    using py_split_Some [OF p ne] py_split_not_Nil [OF ne, of b] by simp
  have fin: "last (py_split sep ?s) = rest" if "b = rest"
    using split that py_split_no_sep [OF ne absent] by simp
  from s obtain us where
    "(a = pre @ us \<and> us @ sep @ b = sep @ rest) \<or> (a @ us = pre \<and> sep @ b = us @ sep @ rest)"
    using append_eq_append_conv2 [of a "sep @ b" pre "sep @ rest"] by metis
  then show ?case
  proof
    assume h: "a = pre @ us \<and> us @ sep @ b = sep @ rest"
    have "us = []"
    proof (rule ccontr)
      assume "us \<noteq> []"
      with h have "sublist sep (pre @ us @ butlast sep)" by (intro earlier_occurrence) auto
      with first h show False by simp
    qed
    with h show ?thesis by (intro fin) simp
  next
    assume h: "a @ us = pre \<and> sep @ b = us @ sep @ rest"
    show ?thesis
    proof (cases "us = []")
      case True
      with h show ?thesis by (intro fin) simp
    next
      case False
      from h obtain vs where
        "(sep = us @ vs \<and> vs @ b = sep @ rest) \<or> (sep @ vs = us \<and> b = vs @ sep @ rest)"
        using append_eq_append_conv2 [of sep b us "sep @ rest"] by metis
      then show ?thesis
      proof
        assume g: "sep @ vs = us \<and> b = vs @ sep @ rest"
        with h ne have "length vs < length pre" by (cases sep) auto
        from less [OF this] g split show ?thesis by simp
      next
        assume g: "sep = us @ vs \<and> vs @ b = sep @ rest"
        show ?thesis
        proof (cases "vs = []")
          case True
          with g have "b = [] @ sep @ rest" by simp
          moreover from h False have "pre \<noteq> []" by auto
          ultimately show ?thesis using split base by simp
        next
          case vs: False
          have "prefix vs (sep @ rest)" using g by (metis prefixI)
          moreover have "prefix sep (sep @ rest)" by simp
          moreover have "length vs \<le> length sep" using g by (metis length_append le_add2)
          ultimately have "prefix vs sep" by (rule prefix_length_prefix)
          moreover have "suffix vs sep" using g by (metis suffixI)
          moreover have "vs \<noteq> sep" using g False by (metis append_self_conv2)
          ultimately show ?thesis using unb [OF vs] by blast
        qed
      qed
    qed
  qed
qed

lemma tagged_fence_unbordered:
  "vs \<noteq> [] \<Longrightarrow> vs \<noteq> tagged_fence \<Longrightarrow> prefix vs tagged_fence \<Longrightarrow> \<not> suffix vs tagged_fence"
proof
  assume ne: "vs \<noteq> []" and neq: "vs \<noteq> tagged_fence"
    and pre: "prefix vs tagged_fence" and suf: "suffix vs tagged_fence"
  from pre obtain zs where zs: "tagged_fence = vs @ zs" by (auto simp: prefix_def)
  with neq have "zs \<noteq> []" by auto
  with zs have "butlast tagged_fence = vs @ butlast zs" by (metis butlast_append)
  then have sub: "set vs \<subseteq> set (butlast tagged_fence)" by simp
  from suf ne have "last vs = last tagged_fence" by (metis suffix_def last_appendR)
  with ne have "last tagged_fence \<in> set vs" by (metis last_in_set)
  with sub have "last tagged_fence \<in> set (butlast tagged_fence)" by blast
  then show False by (simp add: tagged_fence_def)
qed

lemma py_replace_absent: "\<not> sublist old s \<Longrightarrow> py_replace old new s = s"
proof (induction s)
  case Nil
  then show ?case by auto
next
  case (Cons c cs)
  from Cons.prems have "old \<noteq> []" by auto
  moreover from Cons.prems have "\<not> prefix old (c # cs)" and "\<not> sublist old cs"
    by (auto simp: sublist_Cons_right)
  ultimately show ?case using Cons.IH by simp
qed

lemma py_replace_prefix:
  assumes "old \<noteq> []"
  shows "py_replace old new (old @ r) = new @ py_replace old new r"
proof (cases "old @ r")
  case Nil
  with assms show ?thesis by simp
next
  case (Cons c cs)
  have "prefix old (c # cs)" unfolding Cons [symmetric] by simp
  moreover have "drop (length old) (c # cs) = r" unfolding Cons [symmetric] by simp
  ultimately show ?thesis using assms unfolding Cons by simp
qed

lemma mk_log_prefix_not_Nil: "mk_log_prefix request_id \<noteq> []"
  by (simp add: mk_log_prefix_def)

lemma mk_log_prefix_absent:
  "CHR ''['' \<notin> set m \<Longrightarrow> \<not> sublist (mk_log_prefix request_id) m"
  by (auto simp: mk_log_prefix_def dest: set_mono_sublist)

lemma failure_message_prefixed:
  "failure_message (mk_log_prefix request_id) (Some (mk_log_prefix request_id @ t)) =
     ''API Call Failed: '' @ py_replace (mk_log_prefix request_id) ''API Call Failed: '' t"
  by (simp add: failure_message_def mk_log_prefix_not_Nil py_replace_prefix)

lemma handle_exn_prefixed: "\<exists>t. handle_exn lp e = lp @ t"
  by (cases e) (simp_all add: handle_exn_def)

lemma attempts_MAX_RETRIES: "[0..<MAX_RETRIES] = [0, 1, 2]"
  by (simp add: MAX_RETRIES_def upt_rec)

lemma str_nat_small: "str_nat 1 = ''1''" "str_nat 2 = ''2''" "str_nat 3 = ''3''"
  by code_simp+

lemma extract_code_None: "extract_code completion = None \<longleftrightarrow> \<not> sublist fence completion"
  by (auto simp: extract_code_def Let_def tagged_fence_has_fence split: option.splits)


section \<open>Properties of the retry loop\<close>

lemma post_attempts_append [simp]: "post_attempts (xs @ ys) = post_attempts xs @ post_attempts ys"
  by (induction xs rule: post_attempts.induct) simp_all

lemma retry_loop_posts:
  "prefix (post_attempts (snd (retry_loop net lp req attempts last_error))) attempts"
  by (induction attempts arbitrary: last_error)
     (auto simp: case_prod_beta split: sum.splits option.splits)

lemma prefix_upt:
  assumes "prefix xs [0..<n]"
  shows "length xs \<le> n \<and> xs = [0..<length xs]"
proof -
  from assms obtain ys where eq: "[0..<n] = xs @ ys" by (auto simp: prefix_def)
  then have "length xs + length ys = n" by (metis length_append length_upt diff_zero)
  then have len: "length xs \<le> n" by simp
  from eq have "xs = take (length xs) [0..<n]" by simp
  also have "\<dots> = [0..<length xs]" using len by (simp add: take_upt)
  finally show ?thesis using len by simp
qed

lemma execute_code_posts:
  "prefix (post_attempts (snd (execute_code net rid completion stdin ct rt mem lang))) [0..<MAX_RETRIES]"
proof -
  have "prefix (post_attempts (snd (retry_loop net lp req [0..<MAX_RETRIES] None))) [0..<MAX_RETRIES]"
    for lp req by (rule retry_loop_posts)
  then show ?thesis
    by (auto simp: execute_code_def Let_def case_prod_beta split: option.splits loop_result.splits)
qed


lemma execute_code_fell:
  assumes "extract_code completion = Some code" and "lang \<in> set SUPPORTED_LANGUAGES"
    and "retry_loop net (mk_log_prefix request_id) (build_request code stdin ct rt mem lang)
           [0..<MAX_RETRIES] None = (Fell (Some (handle_exn (mk_log_prefix request_id) e)), tr)"
  shows "\<exists>m. execute_code net request_id completion stdin ct rt mem lang =
           ((PNone, PStr (''API Call Failed: '' @ m)), tr)"
proof -
  obtain t where "handle_exn (mk_log_prefix request_id) e = mk_log_prefix request_id @ t"
    using handle_exn_prefixed by blast
  with assms show ?thesis
    by (simp add: execute_code_def Let_def failure_message_prefixed)
qed

lemma execute_code_returned:
  assumes "extract_code completion = Some code" and "lang \<in> set SUPPORTED_LANGUAGES"
    and "retry_loop net (mk_log_prefix request_id) (build_request code stdin ct rt mem lang)
           [0..<MAX_RETRIES] None = (Returned v, tr)"
  shows "execute_code net request_id completion stdin ct rt mem lang = ((v, PNone), tr)"
  using assms by (simp add: execute_code_def Let_def)


lemma butlast_fence: "butlast fence = ''``''"
  by (simp add: fence_def)

lemma fence_not_Nil: "fence \<noteq> []" and tagged_fence_not_Nil: "tagged_fence \<noteq> []"
  by (simp_all add: fence_def tagged_fence_def)

lemma extract_code_tagged:
  assumes "completion = pre @ tagged_fence @ rest" and "\<not> sublist tagged_fence rest"
  shows "extract_code completion = Some (hd (py_split fence rest))"
proof -
  have "sublist tagged_fence completion" unfolding assms(1) by simp
  moreover have "last (py_split tagged_fence completion) = rest"
    unfolding assms(1)
    by (rule py_split_last [OF tagged_fence_not_Nil tagged_fence_unbordered assms(2)])
  ultimately show ?thesis by (simp add: extract_code_def)
qed

lemma retry_all_504:
  assumes "net 0 = Inr r0" and "status_code r0 = 504"
    and "net 1 = Inr r1" and "status_code r1 = 504"
    and "net 2 = Inr r2" and "status_code r2 = 504"
  shows "retry_loop net lp req [0..<MAX_RETRIES] None =
           (Fell (Some (lp @ ''API Request Error: Gateway Timeout (504) on attempt 3/3'')),
            [Post 0 req, Sleep 1, Post 1 req, Sleep 2, Post 2 req])"
  using assms unfolding attempts_MAX_RETRIES
  by (simp add: MAX_RETRIES_def INITIAL_RETRY_DELAY_def str_nat_small)

lemma raise_for_status_2xx:
  "200 \<le> status_code r \<Longrightarrow> status_code r < 300 \<Longrightarrow> raise_for_status r = None"
  by (simp add: raise_for_status_def)

lemma upt_small: "[0..<Suc 0] = [0]" "[0..<2] = [0, 1]" "[0..<3] = [0, 1, 2]"
  by (simp_all add: upt_rec)

lemma retry_first_2xx:
  assumes "k < 3" and "\<forall>j<k. \<exists>r'. net j = Inr r' \<and> status_code r' = 504"
    and "net k = Inr r" and "200 \<le> status_code r" and "status_code r < 300"
    and "json r = Inr v"
  shows "\<exists>tr. retry_loop net lp req [0..<MAX_RETRIES] None = (Returned v, tr)
              \<and> post_attempts tr = [0..<Suc k]"
proof -
  have ok: "status_code r \<noteq> 504" "raise_for_status r = None"
    using assms(4,5) by (simp_all add: raise_for_status_2xx)
  from assms(1) consider "k = 0" | "k = 1" | "k = 2" by linarith
  then show ?thesis
  proof cases
    case 1
    with assms(3,6) ok show ?thesis unfolding attempts_MAX_RETRIES by (simp add: upt_small)
  next
    case 2
    then have "(0::nat) < k" by simp
    with assms(2) obtain r0 where "net 0 = Inr r0" "status_code r0 = 504" by blast
    with 2 assms(3,6) ok show ?thesis unfolding attempts_MAX_RETRIES
      by (simp add: upt_small MAX_RETRIES_def)
  next
    case 3
    then have "(0::nat) < k" and "(1::nat) < k" by simp_all
    with assms(2) obtain r0 r1 where "net 0 = Inr r0" "status_code r0 = 504"
      and "net 1 = Inr r1" "status_code r1 = 504" by blast
    with 3 assms(3,6) ok show ?thesis unfolding attempts_MAX_RETRIES
      by (simp add: upt_small MAX_RETRIES_def)
  qed
qed


section \<open>Results\<close>

text \<open>
  C10: for all integers \<open>a\<close> and \<open>b\<close>, \<^verbatim>\<open>do_math(a, b, "sum")\<close> returns the string
  \<^verbatim>\<open>"Error: Unknown operation"\<close>, raises nothing, and does not return the text that
  reports the sum \<open>a + b\<close>, although the tool schema lists \<^verbatim>\<open>"sum"\<close> among the valid
  operations.
\<close>

theorem do_math_sum_unknown_operation:
  "do_math int_max_str_digits repr_float a b ''sum'' = Inr ''Error: Unknown operation''
   \<and> do_math int_max_str_digits repr_float a b ''sum'' \<noteq> Inr (''The result is '' @ str_int (a + b))
   \<and> ''sum'' \<in> set do_math_operation_enum"
  by (simp add: do_math_def do_math_operation_enum_def)

text \<open>
  C3: a completion that contains no fence marker at all makes \<^verbatim>\<open>execute_code\<close> return
  at once with the missing-code-block error; no request is built and the trace is empty,
  so no network call is made. The result does not depend on any other input.
\<close>

theorem missing_fence_no_call:
  "\<not> sublist fence completion \<Longrightarrow>
   execute_code net request_id completion stdin ct rt mem lang =
     ((PFloat 0, PList [PDict [(''error'', PStr ''Invalid completion (missing code block)'')]]), [])"
  by (simp add: execute_code_def extract_code_None [THEN iffD2])

theorem missing_fence_no_call_witness:
  "\<not> sublist fence ''print(1)'' \<and>
   execute_code (always (Inl (RequestException []))) ''7c9e'' ''print(1)'' None 10 5 128 ''python'' =
     ((PFloat 0, PList [PDict [(''error'', PStr ''Invalid completion (missing code block)'')]]), [])"
proof -
  have h: "\<not> sublist fence ''print(1)''" by code_simp
  from h missing_fence_no_call [OF h] show ?thesis by simp
qed

text \<open>
  C4: for a language outside \<^const>\<open>SUPPORTED_LANGUAGES\<close>, whatever the other inputs,
  \<^verbatim>\<open>execute_code\<close> makes no network call (the trace is empty) and returns an error
  in the second half of the pair; when the completion has a fence, the pair is
  \<^verbatim>\<open>None\<close> with the unsupported-language message.
\<close>

theorem unsupported_language_no_call:
  "lang \<notin> set SUPPORTED_LANGUAGES \<Longrightarrow>
   snd (execute_code net request_id completion stdin ct rt mem lang) = []
   \<and> snd (fst (execute_code net request_id completion stdin ct rt mem lang)) \<noteq> PNone
   \<and> (sublist fence completion \<longrightarrow>
        fst (execute_code net request_id completion stdin ct rt mem lang) =
          (PNone, PStr (mk_log_prefix request_id @ ''Unsupported language: '' @ lang)))"
  using extract_code_None [of completion]
  by (cases "extract_code completion") (simp_all add: execute_code_def Let_def)

theorem unsupported_language_no_call_witness:
  "''brainfuck'' \<notin> set SUPPORTED_LANGUAGES
   \<and> sublist fence ''```print(1)```''
   \<and> execute_code (always (Inr (sample_response 200 (Inr PNone)))) ''7c9e'' ''```print(1)```''
        None 10 5 128 ''brainfuck'' =
      ((PNone, PStr ''[Request ID: 7c9e] Unsupported language: brainfuck''), [])"
proof -
  have h: "''brainfuck'' \<notin> set SUPPORTED_LANGUAGES" by (simp add: SUPPORTED_LANGUAGES_def)
  have f: "sublist fence ''```print(1)```''" by code_simp
  from unsupported_language_no_call [OF h, of "always (Inr (sample_response 200 (Inr PNone)))"
      "''7c9e''" "''```print(1)```''" None 10 5 128] h f
  show ?thesis by (simp add: mk_log_prefix_def prod_eq_iff)
qed

text \<open>
  C5: when the endpoint answers 504 to the first two attempts and 200 with a body that
  parses to \<open>v\<close> to the third, \<^verbatim>\<open>execute_code\<close> returns \<open>(v, None)\<close>, makes exactly
  three outbound calls and sleeps 1 second after the first and 2 seconds after the
  second, the delays \<open>INITIAL_RETRY_DELAY * (attempt + 1)\<close>.
\<close>

theorem retry_504_504_200:
  assumes "extract_code completion = Some code" and "lang \<in> set SUPPORTED_LANGUAGES"
    and "net 0 = Inr r0" and "status_code r0 = 504"
    and "net 1 = Inr r1" and "status_code r1 = 504"
    and "net 2 = Inr r2" and "status_code r2 = 200" and "json r2 = Inr v"
  shows "execute_code net request_id completion stdin ct rt mem lang =
           ((v, PNone),
            [Post 0 (build_request code stdin ct rt mem lang), Sleep 1,
             Post 1 (build_request code stdin ct rt mem lang), Sleep 2,
             Post 2 (build_request code stdin ct rt mem lang)])
         \<and> INITIAL_RETRY_DELAY * (0 + 1) = 1 \<and> INITIAL_RETRY_DELAY * (1 + 1) = 2"
  using assms unfolding execute_code_def attempts_MAX_RETRIES
  by (simp add: Let_def raise_for_status_def MAX_RETRIES_def INITIAL_RETRY_DELAY_def)

theorem retry_504_504_200_witness:
  "extract_code fenced_print = Some ''\<newline>print(1)\<newline>''
   \<and> ''python'' \<in> set SUPPORTED_LANGUAGES
   \<and> execute_code net_504_504_200 ''7c9e'' fenced_print None 10 5 128 ''python'' =
       ((PDict [(''stdout'', PStr ''1'')], PNone),
        [Post 0 (build_request ''\<newline>print(1)\<newline>'' None 10 5 128 ''python''), Sleep 1,
         Post 1 (build_request ''\<newline>print(1)\<newline>'' None 10 5 128 ''python''), Sleep 2,
         Post 2 (build_request ''\<newline>print(1)\<newline>'' None 10 5 128 ''python'')])"
proof -
  have e: "extract_code fenced_print = Some ''\<newline>print(1)\<newline>''" by code_simp
  have l: "''python'' \<in> set SUPPORTED_LANGUAGES" by (simp add: SUPPORTED_LANGUAGES_def)
  have n0: "net_504_504_200 0 = Inr (sample_response 504 (Inl (JSONDecodeError [])))"
    and n1: "net_504_504_200 1 = Inr (sample_response 504 (Inl (JSONDecodeError [])))"
    and n2: "net_504_504_200 2 = Inr (sample_response 200 (Inr (PDict [(''stdout'', PStr ''1'')])))"
    by (simp_all add: net_504_504_200_def)
  have s0: "status_code (sample_response 504 (Inl (JSONDecodeError []))) = 504"
    and s2: "status_code (sample_response 200 (Inr (PDict [(''stdout'', PStr ''1'')]))) = 200"
    and j2: "json (sample_response 200 (Inr (PDict [(''stdout'', PStr ''1'')]))) =
               Inr (PDict [(''stdout'', PStr ''1'')])"
    by (simp_all add: sample_response_def)
  from retry_504_504_200 [OF e l n0 s0 n1 s0 n2 s2 j2, of "''7c9e''" None 10 5 128] e l
  show ?thesis by simp
qed

text \<open>
  The failures of the first attempt that end the run after one call: when
  \<^verbatim>\<open>requests.post\<close> raises an exception (connection error, local timeout, any other),
  or the status is from 400 to 599 and not 504, or the status is not 504 and
  \<^verbatim>\<open>response.json()\<close> raises on the body, \<^verbatim>\<open>execute_code\<close> returns \<^verbatim>\<open>None\<close> with an
  error string that starts with \<^verbatim>\<open>API Call Failed: \<close>, after exactly one outbound call,
  with no retry and no sleep.
\<close>

lemma terminal_failure_single_call:
  assumes "extract_code completion = Some code" and "lang \<in> set SUPPORTED_LANGUAGES"
    and "case net 0 of
           Inl e \<Rightarrow> True
         | Inr r \<Rightarrow> status_code r \<noteq> 504
                    \<and> (400 \<le> status_code r \<and> status_code r < 600 \<or> isl (json r))"
  shows "\<exists>m. execute_code net request_id completion stdin ct rt mem lang =
           ((PNone, PStr (''API Call Failed: '' @ m)),
            [Post 0 (build_request code stdin ct rt mem lang)])"
proof -
  let ?lp = "mk_log_prefix request_id" and ?req = "build_request code stdin ct rt mem lang"
  have "\<exists>e. retry_loop net ?lp ?req [0..<MAX_RETRIES] None =
          (Fell (Some (handle_exn ?lp e)), [Post 0 ?req])"
  proof (cases "net 0")
    case (Inl e)
    then show ?thesis by (intro exI [of _ e]) (simp add: attempts_MAX_RETRIES)
  next
    case (Inr r)
    with assms(3) have st: "status_code r \<noteq> 504"
      and cls: "400 \<le> status_code r \<and> status_code r < 600 \<or> isl (json r)" by simp_all
    show ?thesis
    proof (cases "raise_for_status r")
      case (Some e)
      with Inr st show ?thesis by (intro exI [of _ e]) (simp add: attempts_MAX_RETRIES)
    next
      case None
      with cls have "isl (json r)" by (auto simp: raise_for_status_def split: if_splits)
      then obtain e where "json r = Inl e" by (cases "json r") auto
      with Inr st None show ?thesis by (intro exI [of _ e]) (simp add: attempts_MAX_RETRIES)
    qed
  qed
  then obtain e where "retry_loop net ?lp ?req [0..<MAX_RETRIES] None =
      (Fell (Some (handle_exn ?lp e)), [Post 0 ?req])" by blast
  from execute_code_fell [OF assms(1,2) this] show ?thesis .
qed

lemma terminal_failure_single_call_instance:
  "extract_code fenced_print = Some ''\<newline>print(1)\<newline>''
   \<and> ''python'' \<in> set SUPPORTED_LANGUAGES
   \<and> always (Inr (sample_response 500 (Inr PNone))) 0 = Inr (sample_response 500 (Inr PNone))
   \<and> status_code (sample_response 500 (Inr PNone)) = 500
   \<and> (\<exists>m. execute_code (always (Inr (sample_response 500 (Inr PNone)))) ''7c9e'' fenced_print
            None 10 5 128 ''python'' =
          ((PNone, PStr (''API Call Failed: '' @ m)),
           [Post 0 (build_request ''\<newline>print(1)\<newline>'' None 10 5 128 ''python'')]))"
proof -
  have e: "extract_code fenced_print = Some ''\<newline>print(1)\<newline>''" by code_simp
  have l: "''python'' \<in> set SUPPORTED_LANGUAGES" by (simp add: SUPPORTED_LANGUAGES_def)
  have n: "always (Inr (sample_response 500 (Inr PNone))) 0 = Inr (sample_response 500 (Inr PNone))"
    by (simp add: always_def)
  have s: "status_code (sample_response 500 (Inr PNone)) = 500" by (simp add: sample_response_def)
  have h: "case always (Inr (sample_response 500 (Inr PNone))) 0 of
             Inl e \<Rightarrow> True
           | Inr r \<Rightarrow> status_code r \<noteq> 504
                      \<and> (400 \<le> status_code r \<and> status_code r < 600 \<or> isl (json r))"
    by (simp add: n s)
  from terminal_failure_single_call
    [where net = "always (Inr (sample_response 500 (Inr PNone)))" and request_id = "''7c9e''"
       and stdin = None and ct = 10 and rt = 5 and mem = 128, OF e l h] e l n s
  show ?thesis by simp
qed

text \<open>
  C6: a status that is neither 2xx nor 504 on the first attempt. The status 300 is not
  2xx and not 504, and \<^verbatim>\<open>raise_for_status\<close> does not raise for it: with a body that
  parses, \<^verbatim>\<open>execute_code\<close> reaches the return that its comment reserves for a 2xx status
  and returns the body with no error, where the claim has an error.
\<close>

theorem non_2xx_status_returned_as_success:
  "status_code (sample_response 300 (Inr (PDict []))) \<noteq> 504
   \<and> \<not> (200 \<le> status_code (sample_response 300 (Inr (PDict [])))
        \<and> status_code (sample_response 300 (Inr (PDict []))) < 300)
   \<and> execute_code (always (Inr (sample_response 300 (Inr (PDict []))))) ''7c9e'' fenced_print
        None 10 5 128 ''python'' =
       ((PDict [], PNone),
        [Post 0 (build_request ''\<newline>print(1)\<newline>'' None 10 5 128 ''python'')])"
  by code_simp

text \<open>
  C1: the pair returned on the missing-code-block path. For the completion
  \<^verbatim>\<open>print(1)\<close>, which has no fence, both halves of the returned pair are values other
  than \<^verbatim>\<open>None\<close>: the float \<^verbatim>\<open>0.0\<close> and a list holding a dictionary, not a string.
\<close>

theorem missing_block_pair_not_exclusive:
  "execute_code (always (Inl (RequestException []))) ''7c9e'' ''print(1)'' None 10 5 128 ''python'' =
     ((PFloat 0, PList [PDict [(''error'', PStr ''Invalid completion (missing code block)'')]]), [])
   \<and> PFloat 0 \<noteq> PNone
   \<and> PList [PDict [(''error'', PStr ''Invalid completion (missing code block)'')]] \<noteq> PNone"
  by code_simp

text \<open>
  C9: the pair returned for an unsupported language. The error string starts with the
  log prefix, so it contains the identifier drawn for the call, and two calls that
  differ in the identifier only return different pairs.
\<close>

theorem unsupported_language_error_has_request_id:
  "execute_code (always (Inl (RequestException []))) ''7c9e'' fenced_print None 10 5 128 ''brainfuck'' =
     ((PNone, PStr ''[Request ID: 7c9e] Unsupported language: brainfuck''), [])
   \<and> execute_code (always (Inl (RequestException []))) ''0a1b'' fenced_print None 10 5 128 ''brainfuck'' =
     ((PNone, PStr ''[Request ID: 0a1b] Unsupported language: brainfuck''), [])
   \<and> sublist ''7c9e'' ''[Request ID: 7c9e] Unsupported language: brainfuck''"
  by code_simp

text \<open>
  C7: every run of \<^verbatim>\<open>execute_code\<close> makes its outbound calls in the attempts
  \<open>0, 1, \<dots>\<close>, one call per attempt and at most \<^const>\<open>MAX_RETRIES\<close>, that is 3, in all.
  When the first response that is not a 504 is a 2xx whose body parses to \<open>v\<close>, in attempt
  \<open>k\<close>, the run returns \<open>(v, None)\<close> and makes no call after that attempt. When
  every attempt is answered with 504, the run makes exactly three calls and returns an
  error that names the gateway timeout on attempt 3 of 3.
\<close>

theorem bounded_attempts:
  fixes net request_id completion stdin ct rt mem lang
  defines "R \<equiv> execute_code net request_id completion stdin ct rt mem lang"
  shows "length (post_attempts (snd R)) \<le> MAX_RETRIES \<and> MAX_RETRIES = 3
    \<and> post_attempts (snd R) = [0..<length (post_attempts (snd R))]
    \<and> (extract_code completion = Some code \<and> lang \<in> set SUPPORTED_LANGUAGES \<longrightarrow>
         (k < 3 \<and> (\<forall>j<k. \<exists>r'. net j = Inr r' \<and> status_code r' = 504)
            \<and> net k = Inr r \<and> 200 \<le> status_code r \<and> status_code r < 300 \<and> json r = Inr v
          \<longrightarrow> fst R = (v, PNone) \<and> post_attempts (snd R) = [0..<Suc k])
       \<and> ((\<forall>j<3. \<exists>r'. net j = Inr r' \<and> status_code r' = 504) \<longrightarrow>
            R = ((PNone,
                  PStr ''API Call Failed: API Request Error: Gateway Timeout (504) on attempt 3/3''),
                 [Post 0 (build_request code stdin ct rt mem lang), Sleep 1,
                  Post 1 (build_request code stdin ct rt mem lang), Sleep 2,
                  Post 2 (build_request code stdin ct rt mem lang)])))"
proof -
  let ?req = "build_request code stdin ct rt mem lang" and ?lp = "mk_log_prefix request_id"
  have a: "length (post_attempts (snd R)) \<le> MAX_RETRIES
           \<and> post_attempts (snd R) = [0..<length (post_attempts (snd R))]"
    unfolding R_def by (rule prefix_upt [OF execute_code_posts])
  have b: "fst R = (v, PNone) \<and> post_attempts (snd R) = [0..<Suc k]"
    if e: "extract_code completion = Some code" and l: "lang \<in> set SUPPORTED_LANGUAGES"
      and "k < 3" and "\<forall>j<k. \<exists>r'. net j = Inr r' \<and> status_code r' = 504"
      and "net k = Inr r" and "200 \<le> status_code r" and "status_code r < 300"
      and "json r = Inr v"
  proof -
    from retry_first_2xx [OF that(3-8), of ?lp ?req] obtain tr where
      "retry_loop net ?lp ?req [0..<MAX_RETRIES] None = (Returned v, tr)"
      and tr: "post_attempts tr = [0..<Suc k]" by blast
    from execute_code_returned [OF e l this(1)] tr show ?thesis by (simp add: R_def)
  qed
  have c: "R = ((PNone,
                 PStr ''API Call Failed: API Request Error: Gateway Timeout (504) on attempt 3/3''),
                [Post 0 ?req, Sleep 1, Post 1 ?req, Sleep 2, Post 2 ?req])"
    if e: "extract_code completion = Some code" and l: "lang \<in> set SUPPORTED_LANGUAGES"
      and all: "\<forall>j<3. \<exists>r'. net j = Inr r' \<and> status_code r' = 504"
  proof -
    from all [rule_format, of 0] obtain r0 where r0: "net 0 = Inr r0" "status_code r0 = 504"
      by auto
    from all [rule_format, of 1] obtain r1 where r1: "net 1 = Inr r1" "status_code r1 = 504"
      by auto
    from all [rule_format, of 2] obtain r2 where r2: "net 2 = Inr r2" "status_code r2 = 504"
      by auto
    from retry_all_504 [OF r0 r1 r2, of ?lp ?req]
    have loop: "retry_loop net ?lp ?req [0..<MAX_RETRIES] None =
        (Fell (Some (?lp @ ''API Request Error: Gateway Timeout (504) on attempt 3/3'')),
         [Post 0 ?req, Sleep 1, Post 1 ?req, Sleep 2, Post 2 ?req])" .
    have "py_replace ?lp ''API Call Failed: ''
            ''API Request Error: Gateway Timeout (504) on attempt 3/3'' =
          ''API Request Error: Gateway Timeout (504) on attempt 3/3''"
      by (rule py_replace_absent [OF mk_log_prefix_absent]) simp
    then have "failure_message ?lp
        (Some (?lp @ ''API Request Error: Gateway Timeout (504) on attempt 3/3'')) =
        ''API Call Failed: API Request Error: Gateway Timeout (504) on attempt 3/3''"
      by (simp only: failure_message_prefixed) simp
    with e l loop show ?thesis unfolding R_def execute_code_def by (simp add: Let_def)
  qed
  from a b c show ?thesis unfolding MAX_RETRIES_def by blast
qed

theorem bounded_attempts_witness:
  "extract_code fenced_print = Some ''\<newline>print(1)\<newline>''
   \<and> ''python'' \<in> set SUPPORTED_LANGUAGES
   \<and> fst (execute_code net_504_504_200 ''7c9e'' fenced_print None 10 5 128 ''python'') =
       (PDict [(''stdout'', PStr ''1'')], PNone)
   \<and> post_attempts (snd (execute_code net_504_504_200 ''7c9e'' fenced_print
         None 10 5 128 ''python'')) = [0..<Suc 2]
   \<and> execute_code (always (Inr (sample_response 504 (Inr PNone)))) ''7c9e'' fenced_print
        None 10 5 128 ''python'' =
       ((PNone, PStr ''API Call Failed: API Request Error: Gateway Timeout (504) on attempt 3/3''),
        [Post 0 (build_request ''\<newline>print(1)\<newline>'' None 10 5 128 ''python''), Sleep 1,
         Post 1 (build_request ''\<newline>print(1)\<newline>'' None 10 5 128 ''python''), Sleep 2,
         Post 2 (build_request ''\<newline>print(1)\<newline>'' None 10 5 128 ''python'')])"
proof -
  let ?ok = "sample_response 200 (Inr (PDict [(''stdout'', PStr ''1'')]))"
    and ?gw = "sample_response 504 (Inr PNone)"
  have e: "extract_code fenced_print = Some ''\<newline>print(1)\<newline>''" by code_simp
  have l: "''python'' \<in> set SUPPORTED_LANGUAGES" by (simp add: SUPPORTED_LANGUAGES_def)
  have ok: "(2::nat) < 3 \<and> (\<forall>j<2. \<exists>r'. net_504_504_200 j = Inr r' \<and> status_code r' = 504)
      \<and> net_504_504_200 2 = Inr ?ok \<and> 200 \<le> status_code ?ok \<and> status_code ?ok < 300
      \<and> json ?ok = Inr (PDict [(''stdout'', PStr ''1'')])"
    by (simp add: net_504_504_200_def sample_response_def)
  have gw: "\<forall>j<3. \<exists>r'. always (Inr ?gw) j = Inr r' \<and> status_code r' = 504"
    by (simp add: always_def sample_response_def)
  from bounded_attempts [where net = net_504_504_200 and request_id = "''7c9e''"
      and completion = fenced_print and code = "''\<newline>print(1)\<newline>''" and stdin = None
      and ct = 10 and rt = 5 and mem = 128 and lang = "''python''" and k = 2 and r = ?ok
      and v = "PDict [(''stdout'', PStr ''1'')]"] e l ok
  have 1: "fst (execute_code net_504_504_200 ''7c9e'' fenced_print None 10 5 128 ''python'') =
             (PDict [(''stdout'', PStr ''1'')], PNone)
           \<and> post_attempts (snd (execute_code net_504_504_200 ''7c9e'' fenced_print
                None 10 5 128 ''python'')) = [0..<Suc 2]"
    by blast
  from bounded_attempts [where net = "always (Inr ?gw)" and request_id = "''7c9e''"
      and completion = fenced_print and code = "''\<newline>print(1)\<newline>''" and stdin = None
      and ct = 10 and rt = 5 and mem = 128 and lang = "''python''"] e l gw
  have 2: "execute_code (always (Inr ?gw)) ''7c9e'' fenced_print None 10 5 128 ''python'' =
       ((PNone, PStr ''API Call Failed: API Request Error: Gateway Timeout (504) on attempt 3/3''),
        [Post 0 (build_request ''\<newline>print(1)\<newline>'' None 10 5 128 ''python''), Sleep 1,
         Post 1 (build_request ''\<newline>print(1)\<newline>'' None 10 5 128 ''python''), Sleep 2,
         Post 2 (build_request ''\<newline>print(1)\<newline>'' None 10 5 128 ''python'')])"
    by blast
  from e l 1 2 show ?thesis by blast
qed

text \<open>
  C2 (amended): when the completion contains the tagged fence, the extracted code is
  the text strictly between the last occurrence of the tagged fence and the next bare
  fence marker after it, or the whole text after that occurrence when no fence marker
  follows.
\<close>

theorem tagged_extraction_last_fence:
  assumes "completion = pre @ tagged_fence @ rest" and "\<not> sublist tagged_fence rest"
  shows "(\<not> sublist fence rest \<longrightarrow> extract_code completion = Some rest)
       \<and> (rest = code @ fence @ post \<and> \<not> sublist fence (code @ ''``'')
            \<longrightarrow> extract_code completion = Some code)"
proof (intro conjI impI)
  assume "\<not> sublist fence rest"
  then have "py_split fence rest = [rest]" by (rule py_split_no_sep [OF fence_not_Nil])
  with extract_code_tagged [OF assms] show "extract_code completion = Some rest" by simp
next
  assume h: "rest = code @ fence @ post \<and> \<not> sublist fence (code @ ''``'')"
  then have "partition_str fence rest = Some (code, post)"
    by (intro partition_str_first) (simp_all add: butlast_fence fence_not_Nil)
  then have "py_split fence rest = code # py_split fence post"
    by (rule py_split_Some [OF _ fence_not_Nil])
  with extract_code_tagged [OF assms] show "extract_code completion = Some code" by simp
qed

theorem tagged_extraction_last_fence_witness:
  "two_blocks = ''```python\<newline>A\<newline>```x'' @ tagged_fence @ ''\<newline>B\<newline>```''
   \<and> \<not> sublist tagged_fence ''\<newline>B\<newline>```''
   \<and> ''\<newline>B\<newline>```'' = ''\<newline>B\<newline>'' @ fence @ []
   \<and> \<not> sublist fence (''\<newline>B\<newline>'' @ ''``'')
   \<and> extract_code two_blocks = Some ''\<newline>B\<newline>''
   \<and> unclosed_block = [] @ tagged_fence @ ''\<newline>print(1)''
   \<and> \<not> sublist tagged_fence ''\<newline>print(1)''
   \<and> \<not> sublist fence ''\<newline>print(1)''
   \<and> extract_code unclosed_block = Some ''\<newline>print(1)''"
proof -
  have a1: "two_blocks = ''```python\<newline>A\<newline>```x'' @ tagged_fence @ ''\<newline>B\<newline>```''"
    by (simp add: two_blocks_def tagged_fence_def)
  have a2: "\<not> sublist tagged_fence ''\<newline>B\<newline>```''" by code_simp
  have a3: "''\<newline>B\<newline>```'' = ''\<newline>B\<newline>'' @ fence @ []" by (simp add: fence_def)
  have a4: "\<not> sublist fence (''\<newline>B\<newline>'' @ ''``'')" by code_simp
  have b1: "unclosed_block = [] @ tagged_fence @ ''\<newline>print(1)''"
    by (simp add: unclosed_block_def tagged_fence_def)
  have b2: "\<not> sublist tagged_fence ''\<newline>print(1)''" by code_simp
  have b3: "\<not> sublist fence ''\<newline>print(1)''" by code_simp
  from tagged_extraction_last_fence [OF a1 a2, of "''\<newline>B\<newline>''" "[]"] a3 a4
  have 1: "extract_code two_blocks = Some ''\<newline>B\<newline>''" by blast
  from tagged_extraction_last_fence [OF b1 b2] b3
  have 2: "extract_code unclosed_block = Some ''\<newline>print(1)''" by blast
  from a1 a2 a3 a4 1 b1 b2 b3 2 show ?thesis by blast
qed

text \<open>
  C2 as stated fails: in a completion with two tagged blocks, the text between the first
  occurrence of the tagged fence and the next fence marker is the first block, and the
  extracted code is the second block.
\<close>

theorem first_tagged_block_not_extracted:
  "two_blocks = [] @ tagged_fence @ ''\<newline>A\<newline>'' @ fence @ ''x```python\<newline>B\<newline>```''
   \<and> \<not> sublist fence (''\<newline>A\<newline>'' @ ''``'')
   \<and> extract_code two_blocks = Some ''\<newline>B\<newline>''
   \<and> extract_code two_blocks \<noteq> Some ''\<newline>A\<newline>''"
  by code_simp




end
